theory Spec2Isabelle
  imports Main
begin

section \<open>Python values used by \<open>cuml_accel_utils.py\<close>\<close>

text \<open>
  Exceptions are values. The model's exceptions are instances of Python's class
  \<open>Exception\<close>, split the way the source's two handlers split them:
  \<open>except ImportError\<close> takes an \<open>ImportError\<close> (its subclass
  \<open>ModuleNotFoundError\<close> included), \<open>except Exception\<close> takes both
  constructors. The string is what \<open>str(e)\<close> gives.
\<close>

datatype exc = ImportError string | OtherException string

fun exc_str :: "exc \<Rightarrow> string" where
  "exc_str (ImportError msg) = msg"
| "exc_str (OtherException msg) = msg"

text \<open>
  \<open>str.replace(old, new)\<close>: every non-overlapping occurrence of \<open>old\<close>, found
  from the left, is replaced. With an empty \<open>old\<close> Python puts \<open>new\<close> before
  every character and at the end.
\<close>

function str_replace :: "string \<Rightarrow> string \<Rightarrow> string \<Rightarrow> string" where
  "str_replace old new s =
     (if old = [] then new @ concat (map (\<lambda>c. c # new) s)
      else if s = [] then []
      else if take (length old) s = old
        then new @ str_replace old new (drop (length old) s)
      else hd s # str_replace old new (tl s))"
  by pat_completeness auto
termination
  by (relation "measure (\<lambda>(old, new, s). length s)") auto

text \<open>
  \<open>old in s\<close>, Python's substring test: \<open>old\<close> occurs somewhere in \<open>s\<close>.
\<close>

fun str_contains :: "string \<Rightarrow> string \<Rightarrow> bool" where
  "str_contains old [] = (old = [])"
| "str_contains old (c # cs) = (take (length old) (c # cs) = old \<or> str_contains old cs)"

text \<open>
  The local \<open>wrapper_module\<close> of \<open>activate_cuml_accel_for_module\<close> (line 99):
  \<open>module_name.replace("sklearn", "cuml.accel._wrappers.sklearn")\<close>.
\<close>

definition wrapper_module :: "string \<Rightarrow> string" where
  "wrapper_module module_name =
     str_replace ''sklearn'' ''cuml.accel._wrappers.sklearn'' module_name"

section \<open>The external library and the process state\<close>

text \<open>
  \<open>cuml\<close> is not part of this code. One value of \<open>'h cuml\<close> says what the
  library does during one call of a function of this module: whether each import
  raises, whether \<open>Accelerator(exclude=...)\<close> returns a handle or raises, and whether
  \<open>register\<close> and \<open>install\<close> raise on that handle. \<open>None\<close> is a normal return.
  Every call gets a library behaviour of its own, so the theorems hold whatever the
  library does from one call to the next. \<open>'h\<close> is the opaque type of
  \<open>Accelerator\<close> instances.
\<close>

record 'h cuml =
  import_cuml_accel :: "exc option"
  import_accelerator :: "exc option"
  import_core :: "exc option"
  Accelerator :: "exc + 'h"
  register :: "'h \<Rightarrow> string \<Rightarrow> string \<Rightarrow> exc option"
  install :: "'h \<Rightarrow> exc option"

text \<open>
  What a call does to the outside is returned as a list of events, in order:
  \<open>logger.log(level, message)\<close>, and each call into the library with its outcome.
\<close>

datatype ext_call =
    ImportCumlAccel
  | ImportAccelerator
  | ImportCore
  | NewAccelerator
  | Register string string
  | Install

datatype event = Log nat string | Ext ext_call "exc option"

text \<open>
  The module's globals. \<open>_activated_modules\<close> is a reference to a mutable
  \<open>set\<close> object; \<open>get_activated_modules\<close> hands a set object to the caller, so set
  objects live in a store addressed by index and the global holds an address.
  \<open>_accelerator\<close> is a dict that never leaves the module, held by value.
\<close>

record 'h state =
  heap :: "string set list"
  activated_modules :: nat
  accelerator :: "string \<rightharpoonup> 'h"

text \<open>Lines 14 and 15: \<open>_activated_modules = set()\<close>, \<open>_accelerator = {}\<close>.\<close>

definition init_state :: "'h state" where
  "init_state = \<lparr>heap = [{}], activated_modules = 0, accelerator = Map.empty\<rparr>"

text \<open>The set object behind an address; \<open>s.add(x)\<close>; \<open>s.copy()\<close>, a new object.\<close>

definition deref :: "'h state \<Rightarrow> nat \<Rightarrow> string set" where
  "deref s r = heap s ! r"

definition set_add :: "nat \<Rightarrow> string \<Rightarrow> 'h state \<Rightarrow> 'h state" where
  "set_add r x s = s\<lparr>heap := (heap s)[r := insert x (deref s r)]\<rparr>"

definition set_copy :: "nat \<Rightarrow> 'h state \<Rightarrow> nat \<times> 'h state" where
  "set_copy r s = (length (heap s), s\<lparr>heap := heap s @ [deref s r]\<rparr>)"

text \<open>
  A caller changing a set object it holds (\<open>add\<close>, \<open>discard\<close>, \<open>clear\<close>,
  \<open>update\<close>, ...): the object at the address gets new contents.
\<close>

definition set_mutate :: "nat \<Rightarrow> (string set \<Rightarrow> string set) \<Rightarrow> 'h state \<Rightarrow> 'h state" where
  "set_mutate r f s = s\<lparr>heap := (heap s)[r := f (deref s r)]\<rparr>"

text \<open>The global's address points into the store.\<close>

definition wf_state :: "'h state \<Rightarrow> bool" where
  "wf_state s = (activated_modules s < length (heap s))"

text \<open>The contents of the set that \<open>_activated_modules\<close> names.\<close>

definition activated :: "'h state \<Rightarrow> string set" where
  "activated s = deref s (activated_modules s)"

section \<open>The functions of \<open>cuml_accel_utils.py\<close>\<close>

text \<open>
  Lines 18 to 31. \<open>Inl e\<close> is the exception \<open>e\<close> leaving the function: the handler
  is \<open>except ImportError\<close>, so any other exception of the import goes to the caller.
\<close>

definition is_cuml_accel_available :: "'h cuml \<Rightarrow> (exc + bool) \<times> event list" where
  "is_cuml_accel_available lib =
     (case import_cuml_accel lib of
        None \<Rightarrow> (Inr True, [Ext ImportCumlAccel None])
      | Some (ImportError msg) \<Rightarrow> (Inr False, [Ext ImportCumlAccel (Some (ImportError msg))])
      | Some (OtherException msg) \<Rightarrow>
          (Inl (OtherException msg), [Ext ImportCumlAccel (Some (OtherException msg))]))"

text \<open>Line 48.\<close>

definition is_module_accelerated :: "string \<Rightarrow> 'h state \<Rightarrow> bool" where
  "is_module_accelerated module_name s = (module_name \<in> deref s (activated_modules s))"

text \<open>
  The body of the \<open>try\<close> (lines 89 to 110). It returns the exception raised inside it
  (\<open>Inl\<close>) or the value returned, with the state as it is at that moment: nothing is
  rolled back when an exception is raised.
\<close>

definition try_body :: "'h cuml \<Rightarrow> string \<Rightarrow> 'h state \<Rightarrow> (exc + bool) \<times> 'h state \<times> event list" where
  "try_body lib module_name s =
     (case import_accelerator lib of
        Some e \<Rightarrow> (Inl e, s, [Ext ImportAccelerator (Some e)])
      | None \<Rightarrow>
     (case import_core lib of
        Some e \<Rightarrow> (Inl e, s, [Ext ImportAccelerator None, Ext ImportCore (Some e)])
      | None \<Rightarrow>
     (case Accelerator lib of
        Inl e \<Rightarrow>
          (Inl e, s, [Ext ImportAccelerator None, Ext ImportCore None,
                      Ext NewAccelerator (Some e)])
      | Inr acc \<Rightarrow>
     (let created = [Ext ImportAccelerator None, Ext ImportCore None, Ext NewAccelerator None,
                     Log 15 (''Created cuML Accelerator instance for '' @ module_name)];
          wrapper = wrapper_module module_name
      in
     (case register lib acc module_name wrapper of
        Some e \<Rightarrow> (Inl e, s, created @ [Ext (Register module_name wrapper) (Some e)])
      | None \<Rightarrow>
     (case install lib acc of
        Some e \<Rightarrow>
          (Inl e, s, created @ [Ext (Register module_name wrapper) None, Ext Install (Some e)])
      | None \<Rightarrow>
     (let s1 = s\<lparr>accelerator := (accelerator s)(module_name \<mapsto> acc)\<rparr>;
          s2 = set_add (activated_modules s1) module_name s1
      in (Inr True, s2,
          created @ [Ext (Register module_name wrapper) None, Ext Install None,
                     Log 15 (''Successfully activated cuML acceleration for '' @ module_name)]))))))))"

text \<open>
  Lines 51 to 114. The availability check stands before the \<open>try\<close>, so an exception
  it lets through leaves this function too. \<open>except Exception\<close> takes every exception
  of the body, logs it and returns \<open>False\<close>.
\<close>

definition activate_cuml_accel_for_module ::
  "'h cuml \<Rightarrow> string \<Rightarrow> 'h state \<Rightarrow> (exc + bool) \<times> 'h state \<times> event list" where
  "activate_cuml_accel_for_module lib module_name s =
     (if module_name \<in> deref s (activated_modules s)
      then (Inr True, s, [Log 15 (''cuML acceleration already active for '' @ module_name)])
      else
        (case is_cuml_accel_available lib of
           (Inl e, evs) \<Rightarrow> (Inl e, s, evs)
         | (Inr False, evs) \<Rightarrow>
             (Inr False, s,
              evs @ [Log 15 (''cuml.accel not available, cannot accelerate '' @ module_name)])
         | (Inr True, evs) \<Rightarrow>
             (case try_body lib module_name s of
                (Inl e, s', evs') \<Rightarrow>
                  (Inr False, s',
                   evs @ evs' @
                   [Log 15 (''Failed to activate cuML acceleration for '' @ module_name
                            @ '': '' @ exc_str e)])
              | (Inr b, s', evs') \<Rightarrow> (Inr b, s', evs @ evs'))))"

text \<open>Line 126: \<open>_activated_modules.copy()\<close>; the caller gets the new object's address.\<close>

definition get_activated_modules :: "'h state \<Rightarrow> nat \<times> 'h state" where
  "get_activated_modules s = set_copy (activated_modules s) s"

section \<open>Runs of the module\<close>

text \<open>
  A process calls the four functions in any order, each call with the library
  behaving in some way. A call whose exception reaches the caller leaves the state
  as it is, and the run goes on (the caller may catch it).
\<close>

datatype 'h op =
    IsAvailable "'h cuml"
  | IsAccelerated string
  | Activate "'h cuml" string
  | GetActivated

datatype retval = Bool bool | SetRef nat

fun step :: "'h op \<Rightarrow> 'h state \<Rightarrow> (exc + retval) \<times> 'h state \<times> event list" where
  "step (IsAvailable lib) s =
     (case is_cuml_accel_available lib of
        (Inl e, evs) \<Rightarrow> (Inl e, s, evs)
      | (Inr b, evs) \<Rightarrow> (Inr (Bool b), s, evs))"
| "step (IsAccelerated m) s = (Inr (Bool (is_module_accelerated m s)), s, [])"
| "step (Activate lib m) s =
     (case activate_cuml_accel_for_module lib m s of
        (Inl e, s', evs) \<Rightarrow> (Inl e, s', evs)
      | (Inr b, s', evs) \<Rightarrow> (Inr (Bool b), s', evs))"
| "step GetActivated s =
     (case get_activated_modules s of (r, s') \<Rightarrow> (Inr (SetRef r), s', []))"

fun run :: "'h op list \<Rightarrow> 'h state \<Rightarrow> 'h state" where
  "run [] s = s"
| "run (c # cs) s = run cs (fst (snd (step c s)))"

text \<open>The calls of a run with what each returned and did.\<close>

fun history :: "'h op list \<Rightarrow> 'h state \<Rightarrow> ('h op \<times> (exc + retval) \<times> event list) list" where
  "history [] s = []"
| "history (c # cs) s =
     (c, fst (step c s), snd (snd (step c s))) # history cs (fst (snd (step c s)))"

section \<open>The demo, \<open>demo-cuml-accel.py\<close>\<close>

text \<open>
  \<open>_run_autogluon_demo\<close> (lines 12 to 54). The data table is built by scikit-learn
  and pandas from constants; it is the opaque value \<open>df\<close>. The predictor is
  external: the model gives the calls made to it, with their arguments. A dict is
  a list of pairs, \<open>{'RF': {}}\<close> being \<open>[(''RF'', [])]\<close>.
\<close>

datatype demo_error = ValueError string

record 'df fit_call =
  label :: string
  path :: string
  train_data :: 'df
  time_limit :: int
  hyperparameters :: "(string \<times> (string \<times> string) list) list"
  num_bag_folds :: int
  num_stack_levels :: int
  ag_args_fit :: "(string \<times> int) list"
  verbosity :: int

datatype 'df demo_action = Fit "'df fit_call" | Leaderboard 'df | Print string

definition fit_with :: "'df \<Rightarrow> string \<Rightarrow> string \<Rightarrow> int \<Rightarrow> 'df fit_call" where
  "fit_with df p key num_gpus =
     \<lparr>label = ''target'', path = p, train_data = df, time_limit = 15,
      hyperparameters = [(key, [])], num_bag_folds = 0, num_stack_levels = 0,
      ag_args_fit = [(''num_gpus'', num_gpus)], verbosity = 2\<rparr>"

definition run_autogluon_demo :: "'df \<Rightarrow> string \<Rightarrow> int \<Rightarrow> demo_error + 'df demo_action list" where
  "run_autogluon_demo df model num_gpus =
     (case
        (if model = ''rf'' then Inr (fit_with df ''/tmp/demo_rf'' ''RF'' num_gpus)
         else if model = ''knn'' then Inr (fit_with df ''/tmp/demo_knn'' ''KNN'' num_gpus)
         else if model = ''lr'' then Inr (fit_with df ''/tmp/demo_lr'' ''LR'' num_gpus)
         else Inl (ValueError (''Invalid model: '' @ model)))
      of
        Inl e \<Rightarrow> Inl e
      | Inr call \<Rightarrow> Inr [Fit call, Leaderboard df, Print (CHR 10 # ''Demo complete!'')])"

section \<open>Library behaviours used as concrete inputs\<close>

text \<open>
  A working installation (handle 7); a machine without the package, where the
  import raises \<open>ModuleNotFoundError\<close>, an \<open>ImportError\<close>; an installation whose
  import raises something else (a \<open>RuntimeError\<close> of the CUDA runtime); and one
  whose \<open>install()\<close> raises.
\<close>

definition cuml_working :: "nat cuml" where
  "cuml_working =
     \<lparr>import_cuml_accel = None, import_accelerator = None, import_core = None,
      Accelerator = Inr 7, register = (\<lambda>acc m w. None), install = (\<lambda>acc. None)\<rparr>"

definition cuml_not_installed :: "nat cuml" where
  "cuml_not_installed =
     cuml_working\<lparr>import_cuml_accel := Some (ImportError ''No module named cuml'')\<rparr>"

definition cuml_broken_import :: "nat cuml" where
  "cuml_broken_import =
     cuml_working\<lparr>import_cuml_accel :=
       Some (OtherException ''CUDA driver version is insufficient for CUDA runtime version'')\<rparr>"

definition cuml_install_fails :: "nat cuml" where
  "cuml_install_fails =
     cuml_working\<lparr>install := (\<lambda>acc. Some (OtherException ''install failed''))\<rparr>"

section \<open>Facts about the string substitution\<close>

declare str_replace.simps [simp del]

lemma wrapper_module_ensemble:
  "wrapper_module ''sklearn.ensemble'' = ''cuml.accel._wrappers.sklearn.ensemble''"
  by (simp add: wrapper_module_def str_replace.simps)

lemma str_replace_absent:
  "old \<noteq> [] \<Longrightarrow> \<not> str_contains old s \<Longrightarrow> str_replace old new s = s"
proof (induction s)
  case Nil
  then show ?case by (simp add: str_replace.simps)
next
  case (Cons c cs)
  from Cons.prems(2) have here: "take (length old) (c # cs) \<noteq> old"
    and rest: "\<not> str_contains old cs"
    by simp_all
  have "str_replace old new (c # cs) = c # str_replace old new cs"
    using Cons.prems(1) here by (subst str_replace.simps) simp
  with Cons.IH [OF Cons.prems(1) rest] show ?case by simp
qed

lemma wrapper_module_leading:
  assumes "\<not> str_contains ''sklearn'' rest"
  shows "wrapper_module (''sklearn'' @ rest) = ''cuml.accel._wrappers.sklearn'' @ rest"
proof -
  have "str_replace ''sklearn'' ''cuml.accel._wrappers.sklearn'' (''sklearn'' @ rest)
        = ''cuml.accel._wrappers.sklearn'' @ str_replace ''sklearn'' ''cuml.accel._wrappers.sklearn'' rest"
    by (subst str_replace.simps) simp
  moreover have "str_replace ''sklearn'' ''cuml.accel._wrappers.sklearn'' rest = rest"
    using assms by (intro str_replace_absent) simp_all
  ultimately show ?thesis by (simp add: wrapper_module_def)
qed

text \<open>
  Outside the names of scikit-learn modules: in a string where \<open>sklearn\<close> occurs
  again, \<open>str.replace\<close> replaces that occurrence too.
\<close>

lemma wrapper_module_second_occurrence:
  "wrapper_module ''sklearn.utils.sklearn_helpers''
     = ''cuml.accel._wrappers.sklearn.utils.cuml.accel._wrappers.sklearn_helpers''"
  by (simp add: wrapper_module_def str_replace.simps)

section \<open>One call\<close>

lemma wf_init: "wf_state init_state"
  by (simp add: wf_state_def init_state_def)

lemma activated_init: "activated (init_state :: 'h state) = {}"
  by (simp add: activated_def deref_def init_state_def)

lemma available_no_install: "Ext Install x \<notin> set (snd (is_cuml_accel_available lib))"
  by (simp add: is_cuml_accel_available_def split: option.splits exc.splits)

text \<open>
  The body of the \<open>try\<close> either raises with the state untouched, or returns
  \<open>True\<close> with both globals updated.
\<close>

lemma try_body_raises:
  "try_body lib m s = (Inl e, s', evs) \<Longrightarrow>
     s' = s \<and> Ext Install None \<notin> set evs"
  by (auto simp: try_body_def Let_def split: option.splits sum.splits)

lemma try_body_returns:
  "try_body lib m s = (Inr b, s', evs) \<Longrightarrow>
     b \<and> (\<exists>acc. Accelerator lib = Inr acc
            \<and> register lib acc m (wrapper_module m) = None \<and> install lib acc = None
            \<and> s' = set_add (activated_modules s) m (s\<lparr>accelerator := (accelerator s)(m \<mapsto> acc)\<rparr>))
       \<and> Ext (Register m (wrapper_module m)) None \<in> set evs \<and> Ext Install None \<in> set evs"
  by (auto simp: try_body_def Let_def split: option.splits sum.splits)

lemma set_add_activated:
  "wf_state s \<Longrightarrow> activated (set_add (activated_modules s) m s) = insert m (activated s)"
  by (simp add: wf_state_def activated_def set_add_def deref_def)

lemma set_add_wf: "wf_state s \<Longrightarrow> wf_state (set_add (activated_modules s) m s)"
  by (simp add: wf_state_def set_add_def)

lemma set_add_accelerator: "accelerator (set_add r m s) = accelerator s"
  by (simp add: set_add_def)


lemma activate_outcome:
  assumes "activate_cuml_accel_for_module lib m s = (r, s', evs)"
  shows "(s' = s \<and> Ext Install None \<notin> set evs \<and> (r = Inr True \<longrightarrow> m \<in> activated s))
       \<or> (r = Inr True \<and> m \<notin> activated s
          \<and> (\<exists>acc. Accelerator lib = Inr acc
                \<and> register lib acc m (wrapper_module m) = None \<and> install lib acc = None
                \<and> s' = set_add (activated_modules s) m
                              (s\<lparr>accelerator := (accelerator s)(m \<mapsto> acc)\<rparr>))
          \<and> Ext (Register m (wrapper_module m)) None \<in> set evs
          \<and> Ext Install None \<in> set evs)"
proof (cases "m \<in> activated s")
  case True
  with assms show ?thesis
    by (auto simp: activate_cuml_accel_for_module_def activated_def)
next
  case False
  note inactive = this
  obtain a aev where av: "is_cuml_accel_available lib = (a, aev)"
    by (cases "is_cuml_accel_available lib")
  have aev: "Ext Install None \<notin> set aev"
    using available_no_install [of None lib] av by simp
  show ?thesis
  proof (cases a)
    case (Inl e)
    with assms inactive av aev show ?thesis
      by (auto simp: activate_cuml_accel_for_module_def activated_def)
  next
    case (Inr b)
    show ?thesis
    proof (cases b)
      case False
      with assms inactive av aev Inr show ?thesis
        by (auto simp: activate_cuml_accel_for_module_def activated_def)
    next
      case True
      obtain tr ts tev where tb: "try_body lib m s = (tr, ts, tev)"
        by (cases "try_body lib m s")
      show ?thesis
      proof (cases tr)
        case (Inl e)
        with tb have "ts = s" "Ext Install None \<notin> set tev"
          using try_body_raises [of lib m s e ts tev] by simp_all
        with assms inactive av aev Inr True tb Inl show ?thesis
          by (auto simp: activate_cuml_accel_for_module_def activated_def)
      next
        case (Inr b')
        with tb have "try_body lib m s = (Inr b', ts, tev)" by simp
        from try_body_returns [OF this] assms inactive av aev \<open>a = Inr b\<close> True tb Inr
        show ?thesis
          by (auto simp: activate_cuml_accel_for_module_def activated_def)
      qed
    qed
  qed
qed

lemma activate_wf: "wf_state s \<Longrightarrow> activate_cuml_accel_for_module lib m s = (r, s', evs) \<Longrightarrow> wf_state s'"
  using activate_outcome [of lib m s r s' evs]
  by (auto simp: wf_state_def set_add_def)

lemma activate_activated:
  "wf_state s \<Longrightarrow> activate_cuml_accel_for_module lib m s = (r, s', evs) \<Longrightarrow>
     activated s' = (if r = Inr True then insert m (activated s) else activated s)"
  using activate_outcome [of lib m s r s' evs]
  by (auto simp: wf_state_def set_add_def activated_def deref_def)

lemma activate_dom:
  assumes "wf_state s" and "activate_cuml_accel_for_module lib m s = (r, s', evs)"
    and inv: "activated s = dom (accelerator s)"
  shows "activated s' = dom (accelerator s')"
proof -
  from activate_outcome [OF assms(2)] consider "s' = s"
    | acc where "s' = set_add (activated_modules s) m (s\<lparr>accelerator := (accelerator s)(m \<mapsto> acc)\<rparr>)"
    by blast
  then show ?thesis
  proof cases
    case 1
    with inv show ?thesis by simp
  next
    case (2 acc)
    let ?t = "s\<lparr>accelerator := (accelerator s)(m \<mapsto> acc)\<rparr>"
    have "wf_state ?t" using assms(1) by (simp add: wf_state_def)
    then have "activated (set_add (activated_modules ?t) m ?t) = insert m (activated ?t)"
      by (rule set_add_activated)
    moreover have "activated ?t = activated s" by (simp add: activated_def deref_def)
    ultimately show ?thesis
      using 2 inv by (simp add: set_add_accelerator)
  qed
qed

lemma get_activated_wf: "wf_state s \<Longrightarrow> wf_state (snd (get_activated_modules s))"
  by (simp add: get_activated_modules_def set_copy_def wf_state_def)

lemma get_activated_activated: "wf_state s \<Longrightarrow> activated (snd (get_activated_modules s)) = activated s"
  by (simp add: get_activated_modules_def set_copy_def wf_state_def activated_def deref_def nth_append)

lemma get_activated_accelerator: "accelerator (snd (get_activated_modules s)) = accelerator s"
  by (simp add: get_activated_modules_def set_copy_def)

lemma step_wf: "wf_state s \<Longrightarrow> wf_state (fst (snd (step c s)))"
proof (cases c)
  case (Activate lib m)
  obtain r s' evs where a: "activate_cuml_accel_for_module lib m s = (r, s', evs)"
    by (cases "activate_cuml_accel_for_module lib m s")
  assume "wf_state s"
  from activate_wf [OF this a] a Activate show ?thesis
    by (simp split: sum.splits)
next
  case GetActivated
  assume "wf_state s"
  from get_activated_wf [OF this] GetActivated show ?thesis
    by (cases "get_activated_modules s") simp
qed (auto split: prod.splits sum.splits)

lemma step_mono: "wf_state s \<Longrightarrow> activated s \<subseteq> activated (fst (snd (step c s)))"
proof (cases c)
  case (Activate lib m)
  obtain r s' evs where a: "activate_cuml_accel_for_module lib m s = (r, s', evs)"
    by (cases "activate_cuml_accel_for_module lib m s")
  assume "wf_state s"
  from activate_activated [OF this a] a Activate show ?thesis
    by (auto split: sum.splits if_splits)
next
  case GetActivated
  assume "wf_state s"
  from get_activated_activated [OF this] GetActivated show ?thesis
    by (cases "get_activated_modules s") simp
qed (auto split: prod.splits sum.splits)

lemma step_dom:
  "wf_state s \<Longrightarrow> activated s = dom (accelerator s) \<Longrightarrow>
   activated (fst (snd (step c s))) = dom (accelerator (fst (snd (step c s))))"
proof (cases c)
  case (Activate lib m)
  obtain r s' evs where a: "activate_cuml_accel_for_module lib m s = (r, s', evs)"
    by (cases "activate_cuml_accel_for_module lib m s")
  assume "wf_state s" "activated s = dom (accelerator s)"
  with activate_dom [OF \<open>wf_state s\<close> a] a Activate show ?thesis
    by (auto split: sum.splits)
next
  case GetActivated
  assume "wf_state s" "activated s = dom (accelerator s)"
  with get_activated_activated [of s] get_activated_accelerator [of s] GetActivated show ?thesis
    by (cases "get_activated_modules s") simp
qed (auto split: prod.splits sum.splits)

lemma run_wf: "wf_state s \<Longrightarrow> wf_state (run cs s)"
  by (induction cs arbitrary: s) (simp_all add: step_wf)

lemma run_mono: "wf_state s \<Longrightarrow> activated s \<subseteq> activated (run cs s)"
proof (induction cs arbitrary: s)
  case Nil
  show ?case by simp
next
  case (Cons c cs)
  have "activated s \<subseteq> activated (fst (snd (step c s)))"
    using Cons.prems by (rule step_mono)
  also have "\<dots> \<subseteq> activated (run cs (fst (snd (step c s))))"
    using Cons.prems by (intro Cons.IH step_wf)
  finally show ?case by simp
qed

lemma run_append: "run (cs @ ds) s = run ds (run cs s)"
  by (induction cs arbitrary: s) simp_all

lemma run_dom: "wf_state s \<Longrightarrow> activated s = dom (accelerator s) \<Longrightarrow>
   activated (run cs s) = dom (accelerator (run cs s))"
  by (induction cs arbitrary: s) (simp_all add: step_wf step_dom)

lemma step_membership:
  assumes "wf_state s"
  shows "m \<in> activated (fst (snd (step c s))) \<longleftrightarrow>
         m \<in> activated s \<or>
         (\<exists>lib. c = Activate lib m \<and> fst (step c s) = Inr (Bool True)
            \<and> (\<exists>acc. Accelerator lib = Inr acc
                  \<and> register lib acc m (wrapper_module m) = None \<and> install lib acc = None)
            \<and> Ext (Register m (wrapper_module m)) None \<in> set (snd (snd (step c s)))
            \<and> Ext Install None \<in> set (snd (snd (step c s))))"
proof (cases c)
  case (Activate lib m')
  obtain r s' evs where a: "activate_cuml_accel_for_module lib m' s = (r, s', evs)"
    by (cases "activate_cuml_accel_for_module lib m' s")
  have st: "fst (snd (step c s)) = s'" "snd (snd (step c s)) = evs"
    "fst (step c s) = Inr (Bool True) \<longleftrightarrow> r = Inr True"
    using a Activate by (auto split: sum.splits)
  from activate_outcome [OF a] show ?thesis
  proof (elim disjE conjE exE)
    assume "s' = s" "Ext Install None \<notin> set evs"
    then show ?thesis using st by simp
  next
    fix acc
    assume r: "r = Inr True" and new: "m' \<notin> activated s"
      and lib: "Accelerator lib = Inr acc" "register lib acc m' (wrapper_module m') = None"
        "install lib acc = None"
      and s': "s' = set_add (activated_modules s) m' (s\<lparr>accelerator := (accelerator s)(m' \<mapsto> acc)\<rparr>)"
      and evs: "Ext (Register m' (wrapper_module m')) None \<in> set evs" "Ext Install None \<in> set evs"
    have "activated s' = insert m' (activated s)"
      using activate_activated [OF assms a] r by simp
    moreover have "(\<exists>lib. c = Activate lib m) \<longleftrightarrow> m = m'" using Activate by auto
    ultimately show ?thesis using st r evs new lib Activate by (cases "m = m'") simp_all
  qed
next
  case GetActivated
  with get_activated_activated [OF assms] show ?thesis
    by (cases "get_activated_modules s") simp
next
  case (IsAvailable lib)
  then have "fst (snd (step c s)) = s"
    by (cases "is_cuml_accel_available lib") (simp split: sum.splits)
  with IsAvailable show ?thesis by simp
next
  case (IsAccelerated m')
  then show ?thesis by simp
qed

lemma run_membership:
  "wf_state s \<Longrightarrow>
   m \<in> activated (run cs s) \<longleftrightarrow>
     m \<in> activated s \<or>
     (\<exists>lib evs. (Activate lib m, Inr (Bool True), evs) \<in> set (history cs s)
        \<and> (\<exists>acc. Accelerator lib = Inr acc
              \<and> register lib acc m (wrapper_module m) = None \<and> install lib acc = None)
        \<and> Ext (Register m (wrapper_module m)) None \<in> set evs
        \<and> Ext Install None \<in> set evs)"
proof (induction cs arbitrary: s)
  case Nil
  show ?case by simp
next
  case (Cons c cs)
  let ?s1 = "fst (snd (step c s))"
  have "wf_state ?s1" using Cons.prems by (rule step_wf)
  from Cons.IH [OF this]
  have ih: "m \<in> activated (run (c # cs) s) \<longleftrightarrow>
     m \<in> activated ?s1 \<or>
     (\<exists>lib evs. (Activate lib m, Inr (Bool True), evs) \<in> set (history cs ?s1)
        \<and> (\<exists>acc. Accelerator lib = Inr acc
              \<and> register lib acc m (wrapper_module m) = None \<and> install lib acc = None)
        \<and> Ext (Register m (wrapper_module m)) None \<in> set evs
        \<and> Ext Install None \<in> set evs)"
    by simp
  have hd: "(\<exists>lib evs. (Activate lib m, Inr (Bool True), evs) = (c, fst (step c s), snd (snd (step c s)))
        \<and> (\<exists>acc. Accelerator lib = Inr acc
              \<and> register lib acc m (wrapper_module m) = None \<and> install lib acc = None)
        \<and> Ext (Register m (wrapper_module m)) None \<in> set evs
        \<and> Ext Install None \<in> set evs) \<longleftrightarrow>
     (\<exists>lib. c = Activate lib m \<and> fst (step c s) = Inr (Bool True)
            \<and> (\<exists>acc. Accelerator lib = Inr acc
                  \<and> register lib acc m (wrapper_module m) = None \<and> install lib acc = None)
            \<and> Ext (Register m (wrapper_module m)) None \<in> set (snd (snd (step c s)))
            \<and> Ext Install None \<in> set (snd (snd (step c s))))"
    by auto
  have split: "(\<exists>lib evs. (Activate lib m, Inr (Bool True), evs) \<in> set (history (c # cs) s)
        \<and> (\<exists>acc. Accelerator lib = Inr acc
              \<and> register lib acc m (wrapper_module m) = None \<and> install lib acc = None)
        \<and> Ext (Register m (wrapper_module m)) None \<in> set evs
        \<and> Ext Install None \<in> set evs) \<longleftrightarrow>
     (\<exists>lib evs. (Activate lib m, Inr (Bool True), evs) = (c, fst (step c s), snd (snd (step c s)))
        \<and> (\<exists>acc. Accelerator lib = Inr acc
              \<and> register lib acc m (wrapper_module m) = None \<and> install lib acc = None)
        \<and> Ext (Register m (wrapper_module m)) None \<in> set evs
        \<and> Ext Install None \<in> set evs) \<or>
     (\<exists>lib evs. (Activate lib m, Inr (Bool True), evs) \<in> set (history cs ?s1)
        \<and> (\<exists>acc. Accelerator lib = Inr acc
              \<and> register lib acc m (wrapper_module m) = None \<and> install lib acc = None)
        \<and> Ext (Register m (wrapper_module m)) None \<in> set evs
        \<and> Ext Install None \<in> set evs)"
    by (simp del: step.simps) blast
  show ?case
    unfolding ih split hd step_membership [OF Cons.prems, of m c] by blast
qed

section \<open>When a call raises, and what it leaves\<close>

text \<open>
  \<open>activate_cuml_accel_for_module\<close> raises only what the availability check lets
  through, and an import that fails, with whatever exception, leaves the state as it
  is; where the import raises \<open>ImportError\<close> the function returns \<open>False\<close>. A
  call that records a module name is one in which the library's \<open>register\<close> and
  \<open>install\<close> returned. Changing the set object the global names does change the
  activated set: the store tells that object from a copy of it.
\<close>

lemma activate_raises_iff:
  "fst (activate_cuml_accel_for_module lib m s) = Inl e \<longleftrightarrow>
     m \<notin> activated s \<and> (\<exists>msg. e = OtherException msg \<and> import_cuml_accel lib = Some e)"
proof (cases "m \<in> activated s")
  case True
  then show ?thesis
    by (simp add: activate_cuml_accel_for_module_def activated_def)
next
  case False
  obtain tr ts tev where tb: "try_body lib m s = (tr, ts, tev)"
    by (cases "try_body lib m s")
  show ?thesis
    using False tb
    by (cases tr)
       (auto simp: activate_cuml_accel_for_module_def activated_def is_cuml_accel_available_def
             split: option.splits exc.splits)
qed

lemma activate_import_fails_state:
  "import_cuml_accel lib = Some e \<Longrightarrow> fst (snd (activate_cuml_accel_for_module lib m s)) = s"
  by (cases e) (simp_all add: activate_cuml_accel_for_module_def is_cuml_accel_available_def)

lemma activate_unavailable:
  assumes "module_name \<notin> activated s"
    and "import_cuml_accel lib = Some (ImportError msg)"
  shows "activate_cuml_accel_for_module lib module_name s =
           (Inr False, s,
            [Ext ImportCumlAccel (Some (ImportError msg)),
             Log 15 (''cuml.accel not available, cannot accelerate '' @ module_name)])"
  using assms
  by (simp add: activate_cuml_accel_for_module_def is_cuml_accel_available_def activated_def)

lemma activate_records_only_after_install:
  assumes "m \<notin> activated s"
    and "m \<in> activated (fst (snd (activate_cuml_accel_for_module lib m s)))"
  shows "\<exists>acc. Accelerator lib = Inr acc
           \<and> register lib acc m (wrapper_module m) = None \<and> install lib acc = None"
proof -
  obtain r s' evs where a: "activate_cuml_accel_for_module lib m s = (r, s', evs)"
    by (cases "activate_cuml_accel_for_module lib m s")
  with assms have "s' \<noteq> s" by auto
  with activate_outcome [OF a] show ?thesis by blast
qed

lemma set_mutate_global:
  "wf_state s \<Longrightarrow> activated (set_mutate (activated_modules s) f s) = f (activated s)"
  by (simp add: set_mutate_def wf_state_def activated_def deref_def)

section \<open>Calls on concrete inputs\<close>

lemma activate_working_init:
  "activate_cuml_accel_for_module cuml_working ''sklearn.ensemble'' init_state =
     (Inr True,
      \<lparr>heap = [{''sklearn.ensemble''}], activated_modules = 0,
       accelerator = [''sklearn.ensemble'' \<mapsto> 7]\<rparr>,
      [Ext ImportCumlAccel None, Ext ImportAccelerator None, Ext ImportCore None,
       Ext NewAccelerator None,
       Log 15 ''Created cuML Accelerator instance for sklearn.ensemble'',
       Ext (Register ''sklearn.ensemble'' ''cuml.accel._wrappers.sklearn.ensemble'') None,
       Ext Install None,
       Log 15 ''Successfully activated cuML acceleration for sklearn.ensemble''])"
  by (simp add: activate_cuml_accel_for_module_def is_cuml_accel_available_def try_body_def
        cuml_working_def init_state_def deref_def set_add_def wrapper_module_ensemble)

lemma activate_not_installed_init:
  "activate_cuml_accel_for_module cuml_not_installed ''sklearn.ensemble'' init_state =
     (Inr False, init_state,
      [Ext ImportCumlAccel (Some (ImportError ''No module named cuml'')),
       Log 15 ''cuml.accel not available, cannot accelerate sklearn.ensemble''])"
  by (simp add: activate_cuml_accel_for_module_def is_cuml_accel_available_def
        cuml_not_installed_def cuml_working_def init_state_def deref_def)

lemma activate_broken_import_init:
  "activate_cuml_accel_for_module cuml_broken_import ''sklearn.ensemble'' init_state =
     (Inl (OtherException ''CUDA driver version is insufficient for CUDA runtime version''),
      init_state,
      [Ext ImportCumlAccel
         (Some (OtherException ''CUDA driver version is insufficient for CUDA runtime version''))])"
  by (simp add: activate_cuml_accel_for_module_def is_cuml_accel_available_def
        cuml_broken_import_def cuml_working_def init_state_def deref_def)

lemma run_sample:
  "run [Activate cuml_not_installed ''sklearn.ensemble'', Activate cuml_working ''sklearn.ensemble'',
        GetActivated] init_state
   = \<lparr>heap = [{''sklearn.ensemble''}, {''sklearn.ensemble''}], activated_modules = 0,
       accelerator = [''sklearn.ensemble'' \<mapsto> 7]\<rparr>"
  by (simp add: activate_working_init activate_not_installed_init
       get_activated_modules_def set_copy_def deref_def)

section \<open>The availability check\<close>

lemma is_cuml_accel_available_true_iff:
  "fst (is_cuml_accel_available lib) = Inr True \<longleftrightarrow> import_cuml_accel lib = None"
  by (simp add: is_cuml_accel_available_def split: option.splits exc.splits)

lemma is_cuml_accel_available_false_iff:
  "fst (is_cuml_accel_available lib) = Inr False
     \<longleftrightarrow> (\<exists>msg. import_cuml_accel lib = Some (ImportError msg))"
  by (simp add: is_cuml_accel_available_def split: option.splits exc.splits)

lemma is_cuml_accel_available_raises_iff:
  "fst (is_cuml_accel_available lib) = Inl e
     \<longleftrightarrow> (\<exists>msg. e = OtherException msg \<and> import_cuml_accel lib = Some e)"
  by (auto simp: is_cuml_accel_available_def split: option.splits exc.splits)

section \<open>The properties of the specification\<close>

text \<open>
  C1. For every scikit-learn module name, the wrapper module name derived during
  activation is the name with only the leading token \<open>sklearn\<close> replaced by
  \<open>cuml.accel._wrappers.sklearn\<close>; for \<open>sklearn.ensemble\<close> it is
  \<open>cuml.accel._wrappers.sklearn.ensemble\<close>. A scikit-learn module name is
  \<open>sklearn\<close> followed by a rest (empty, or the dotted path of a submodule) in which
  \<open>sklearn\<close> does not occur again.
\<close>

theorem wrapper_module_replaces_leading_token:
  assumes "\<not> str_contains ''sklearn'' rest"
  shows "wrapper_module (''sklearn'' @ rest) = ''cuml.accel._wrappers.sklearn'' @ rest
       \<and> wrapper_module ''sklearn.ensemble'' = ''cuml.accel._wrappers.sklearn.ensemble''"
  using assms wrapper_module_leading wrapper_module_ensemble by blast

theorem wrapper_module_replaces_leading_token_witness:
  "\<not> str_contains ''sklearn'' ''.linear_model._base''
   \<and> wrapper_module ''sklearn.linear_model._base''
       = ''cuml.accel._wrappers.sklearn.linear_model._base''
   \<and> \<not> str_contains ''sklearn'' ''.neighbors''
   \<and> wrapper_module ''sklearn.neighbors'' = ''cuml.accel._wrappers.sklearn.neighbors''
   \<and> \<not> str_contains ''sklearn'' []
   \<and> wrapper_module ''sklearn'' = ''cuml.accel._wrappers.sklearn''"
  using wrapper_module_replaces_leading_token [of "''.linear_model._base''"]
    wrapper_module_replaces_leading_token [of "''.neighbors''"]
    wrapper_module_replaces_leading_token [of "[]"]
  by simp

text \<open>
  C2. When the library raises an exception inside the \<open>try\<close> of
  \<open>activate_cuml_accel_for_module\<close> (importing \<open>Accelerator\<close> or
  \<open>_exclude_from_acceleration\<close>, constructing the accelerator, registering or
  installing), the function returns \<open>False\<close>, the exception does not reach the
  caller, the last thing it does is to log the exception at level 15 (below
  \<open>logging.INFO\<close>, 20), and the state, so the activated set and the handle table, is
  what it was.
\<close>

theorem activate_catches_library_exception:
  assumes "module_name \<notin> activated s"
    and "import_cuml_accel lib = None"
    and "import_accelerator lib = Some e
       \<or> import_accelerator lib = None \<and> import_core lib = Some e
       \<or> import_accelerator lib = None \<and> import_core lib = None \<and> Accelerator lib = Inl e
       \<or> (\<exists>acc. import_accelerator lib = None \<and> import_core lib = None
              \<and> Accelerator lib = Inr acc
              \<and> register lib acc module_name (wrapper_module module_name) = Some e)
       \<or> (\<exists>acc. import_accelerator lib = None \<and> import_core lib = None
              \<and> Accelerator lib = Inr acc
              \<and> register lib acc module_name (wrapper_module module_name) = None
              \<and> install lib acc = Some e)"
  shows "\<exists>evs. activate_cuml_accel_for_module lib module_name s =
           (Inr False, s,
            evs @ [Log 15 (''Failed to activate cuML acceleration for '' @ module_name
                           @ '': '' @ exc_str e)])"
proof -
  have "\<exists>evs. try_body lib module_name s = (Inl e, s, evs)"
    using assms(3) by (auto simp: try_body_def Let_def)
  then obtain evs where "try_body lib module_name s = (Inl e, s, evs)" ..
  then have "activate_cuml_accel_for_module lib module_name s =
           (Inr False, s,
            (Ext ImportCumlAccel None # evs) @
               [Log 15 (''Failed to activate cuML acceleration for '' @ module_name
                           @ '': '' @ exc_str e)])"
    using assms(1,2)
    by (simp add: activate_cuml_accel_for_module_def is_cuml_accel_available_def activated_def)
  then show ?thesis by blast
qed

theorem activate_catches_library_exception_witness:
  "''sklearn.ensemble'' \<notin> activated (init_state :: nat state)
   \<and> import_cuml_accel cuml_install_fails = None
   \<and> Accelerator cuml_install_fails = Inr 7
   \<and> install cuml_install_fails 7 = Some (OtherException ''install failed'')
   \<and> (\<exists>evs. activate_cuml_accel_for_module cuml_install_fails ''sklearn.ensemble'' init_state =
           (Inr False, init_state,
            evs @ [Log 15 ''Failed to activate cuML acceleration for sklearn.ensemble: install failed'']))"
  using activate_catches_library_exception
    [of "''sklearn.ensemble''" "init_state :: nat state" cuml_install_fails
        "OtherException ''install failed''"]
  by (simp add: cuml_install_fails_def cuml_working_def activated_init)

text \<open>
  C3. After a call of \<open>activate_cuml_accel_for_module\<close> that returned \<open>True\<close>, a
  second call for the same module name returns \<open>True\<close> whatever the library would
  do (\<open>lib2\<close>), does nothing but log one message, so calls neither \<open>register\<close> nor
  \<open>install\<close>, and leaves the state as it is.
\<close>

theorem activate_twice_idempotent:
  assumes "wf_state s"
    and "activate_cuml_accel_for_module lib1 module_name s = (Inr True, s1, evs1)"
  shows "activate_cuml_accel_for_module lib2 module_name s1 =
           (Inr True, s1, [Log 15 (''cuML acceleration already active for '' @ module_name)])"
proof -
  have "activated s1 = insert module_name (activated s)"
    using activate_activated [OF assms] by simp
  then show ?thesis
    by (simp add: activate_cuml_accel_for_module_def activated_def)
qed

theorem activate_twice_idempotent_witness:
  "wf_state (init_state :: nat state)
   \<and> fst (activate_cuml_accel_for_module cuml_working ''sklearn.ensemble'' init_state) = Inr True
   \<and> activate_cuml_accel_for_module cuml_broken_import ''sklearn.ensemble''
        (fst (snd (activate_cuml_accel_for_module cuml_working ''sklearn.ensemble'' init_state)))
      = (Inr True,
         \<lparr>heap = [{''sklearn.ensemble''}], activated_modules = 0,
          accelerator = [''sklearn.ensemble'' \<mapsto> 7]\<rparr>,
         [Log 15 ''cuML acceleration already active for sklearn.ensemble''])"
  using activate_twice_idempotent [OF wf_init activate_working_init, of cuml_broken_import]
  by (simp add: wf_init activate_working_init)

text \<open>
  C4. For a module name not recorded active, when the package cannot be imported,
  \<open>activate_cuml_accel_for_module\<close> returns \<open>False\<close> and leaves the activated
  set and the handle table as they were. Where the import raises \<open>ImportError\<close>
  the function does so (\<open>activate_unavailable\<close> above). Where the import fails
  with an exception of another class, the availability check, which is called
  outside the \<open>try\<close>, raises it, and so does this function: the state is as it was,
  but no \<open>False\<close> is returned.
\<close>

theorem activate_raises_when_import_breaks:
  "''sklearn.ensemble'' \<notin> activated (init_state :: nat state)
   \<and> import_cuml_accel cuml_broken_import
       = Some (OtherException ''CUDA driver version is insufficient for CUDA runtime version'')
   \<and> fst (activate_cuml_accel_for_module cuml_broken_import ''sklearn.ensemble'' init_state)
       = Inl (OtherException ''CUDA driver version is insufficient for CUDA runtime version'')
   \<and> fst (activate_cuml_accel_for_module cuml_broken_import ''sklearn.ensemble'' init_state)
       \<noteq> Inr False
   \<and> fst (snd (activate_cuml_accel_for_module cuml_broken_import ''sklearn.ensemble'' init_state))
       = init_state"
proof -
  have "import_cuml_accel cuml_broken_import
       = Some (OtherException ''CUDA driver version is insufficient for CUDA runtime version'')"
    by (simp add: cuml_broken_import_def cuml_working_def)
  then show ?thesis
    by (simp add: activate_broken_import_init activated_init)
qed

text \<open>
  C5. In every state reached from the initial one by calls of the module's functions,
  a module name is in the activated set if and only if an earlier call of
  \<open>activate_cuml_accel_for_module\<close> for that name returned \<open>True\<close> and, in that
  call, the library's \<open>register\<close> (with the derived wrapper name) and \<open>install\<close>,
  on the accelerator the library constructed, were called and returned without
  raising.
\<close>

theorem activated_iff_successful_call:
  "m \<in> activated (run cs init_state) \<longleftrightarrow>
     (\<exists>lib evs. (Activate lib m, Inr (Bool True), evs) \<in> set (history cs init_state)
        \<and> (\<exists>acc. Accelerator lib = Inr acc
              \<and> register lib acc m (wrapper_module m) = None \<and> install lib acc = None)
        \<and> Ext (Register m (wrapper_module m)) None \<in> set evs
        \<and> Ext Install None \<in> set evs)"
  using run_membership [OF wf_init, of m cs] by (simp add: activated_init)

theorem activated_iff_successful_call_witness:
  "''sklearn.ensemble'' \<in> activated
      (run [Activate cuml_not_installed ''sklearn.ensemble'',
            Activate cuml_working ''sklearn.ensemble'', GetActivated] init_state)
   \<and> (\<exists>lib evs. (Activate lib ''sklearn.ensemble'', Inr (Bool True), evs)
          \<in> set (history [Activate cuml_not_installed ''sklearn.ensemble'',
                           Activate cuml_working ''sklearn.ensemble'', GetActivated] init_state)
        \<and> (\<exists>acc. Accelerator lib = Inr acc
              \<and> register lib acc ''sklearn.ensemble'' (wrapper_module ''sklearn.ensemble'') = None
              \<and> install lib acc = None)
        \<and> Ext (Register ''sklearn.ensemble'' (wrapper_module ''sklearn.ensemble'')) None \<in> set evs
        \<and> Ext Install None \<in> set evs)"
proof -
  have "''sklearn.ensemble'' \<in> activated
      (run [Activate cuml_not_installed ''sklearn.ensemble'',
            Activate cuml_working ''sklearn.ensemble'', GetActivated] init_state)"
    unfolding run_sample by (simp add: activated_def deref_def)
  with activated_iff_successful_call
    [of "''sklearn.ensemble''"
        "[Activate cuml_not_installed ''sklearn.ensemble'',
          Activate cuml_working ''sklearn.ensemble'', GetActivated]"]
  show ?thesis by blast
qed

text \<open>
  C6. \<open>is_cuml_accel_available\<close> never lets a failure of the import reach the caller:
  any failure becomes \<open>False\<close>. The handler is \<open>except ImportError\<close>: where the
  import raises an exception of another class, the function raises it.
  (\<open>is_cuml_accel_available_true_iff\<close>, \<open>is_cuml_accel_available_false_iff\<close> and
  \<open>is_cuml_accel_available_raises_iff\<close> above give the three outcomes.)
\<close>

theorem is_cuml_accel_available_lets_other_exceptions_through:
  "is_cuml_accel_available cuml_broken_import =
     (Inl (OtherException ''CUDA driver version is insufficient for CUDA runtime version''),
      [Ext ImportCumlAccel
         (Some (OtherException ''CUDA driver version is insufficient for CUDA runtime version''))])"
  by (simp add: is_cuml_accel_available_def cuml_broken_import_def cuml_working_def)

text \<open>
  C7. \<open>_run_autogluon_demo\<close> raises \<open>ValueError\<close> for every model string other than
  \<open>rf\<close>, \<open>knn\<close> and \<open>lr\<close>, and for these three fits the predictor with the
  hyperparameters \<open>{'RF': {}}\<close>, \<open>{'KNN': {}}\<close> and \<open>{'LR': {}}\<close>.
\<close>

theorem demo_dispatch:
  "(model \<notin> {''rf'', ''knn'', ''lr''} \<longrightarrow>
      run_autogluon_demo df model num_gpus = Inl (ValueError (''Invalid model: '' @ model)))
   \<and> run_autogluon_demo df ''rf'' num_gpus =
       Inr [Fit (fit_with df ''/tmp/demo_rf'' ''RF'' num_gpus), Leaderboard df,
            Print (CHR 10 # ''Demo complete!'')]
   \<and> run_autogluon_demo df ''knn'' num_gpus =
       Inr [Fit (fit_with df ''/tmp/demo_knn'' ''KNN'' num_gpus), Leaderboard df,
            Print (CHR 10 # ''Demo complete!'')]
   \<and> run_autogluon_demo df ''lr'' num_gpus =
       Inr [Fit (fit_with df ''/tmp/demo_lr'' ''LR'' num_gpus), Leaderboard df,
            Print (CHR 10 # ''Demo complete!'')]
   \<and> hyperparameters (fit_with df p key num_gpus) = [(key, [])]"
  by (simp add: run_autogluon_demo_def fit_with_def)

theorem demo_dispatch_witness:
  "''xgb'' \<notin> {''rf'', ''knn'', ''lr''}
   \<and> run_autogluon_demo () ''xgb'' 0 = Inl (ValueError ''Invalid model: xgb'')
   \<and> run_autogluon_demo () ''RF'' 0 = Inl (ValueError ''Invalid model: RF'')
   \<and> hyperparameters (fit_with () ''/tmp/demo_knn'' ''KNN'' 1) = [(''KNN'', [])]"
  using demo_dispatch [of "''xgb''" "()" 0 "''/tmp/demo_knn''" "''KNN''"]
    demo_dispatch [of "''RF''" "()" 0 "''/tmp/demo_knn''" "''KNN''"]
  by (simp add: fit_with_def)

text \<open>
  C8. The activated set starts empty; no function of the module removes a member of
  it, in any state; and a module name recorded active after some calls is reported
  active by \<open>is_module_accelerated\<close> after any further calls.
\<close>

theorem activated_append_only:
  "activated (init_state :: 'h state) = {}
   \<and> (wf_state s \<longrightarrow> activated s \<subseteq> activated (fst (snd (step c s))))
   \<and> activated (run cs (init_state :: 'h state)) \<subseteq> activated (run (cs @ ds) init_state)
   \<and> (m \<in> activated (run cs (init_state :: 'h state))
        \<longrightarrow> is_module_accelerated m (run (cs @ ds) init_state))"
proof -
  have "wf_state (run cs (init_state :: 'h state))" using wf_init by (rule run_wf)
  then have mono: "activated (run cs (init_state :: 'h state)) \<subseteq> activated (run (cs @ ds) init_state)"
    unfolding run_append by (rule run_mono)
  then have "m \<in> activated (run cs (init_state :: 'h state))
        \<longrightarrow> is_module_accelerated m (run (cs @ ds) init_state)"
    by (auto simp: is_module_accelerated_def activated_def)
  with mono show ?thesis by (simp add: activated_init step_mono)
qed

theorem activated_append_only_witness:
  "wf_state (init_state :: nat state)
   \<and> activated (init_state :: nat state)
        \<subseteq> activated (fst (snd (step (Activate cuml_working ''sklearn.ensemble'') init_state)))
   \<and> ''sklearn.ensemble'' \<in> activated (run [Activate cuml_working ''sklearn.ensemble''] init_state)
   \<and> is_module_accelerated ''sklearn.ensemble''
        (run ([Activate cuml_working ''sklearn.ensemble'']
              @ [GetActivated, Activate cuml_broken_import ''sklearn.neighbors'',
                 Activate cuml_install_fails ''sklearn.ensemble'']) init_state)"
proof -
  have "''sklearn.ensemble'' \<in> activated (run [Activate cuml_working ''sklearn.ensemble''] init_state)"
    by (simp add: activate_working_init activated_def deref_def)
  with activated_append_only
    [of "init_state :: nat state" "Activate cuml_working ''sklearn.ensemble''"
        "[Activate cuml_working ''sklearn.ensemble'']"
        "[GetActivated, Activate cuml_broken_import ''sklearn.neighbors'',
          Activate cuml_install_fails ''sklearn.ensemble'']"
        "''sklearn.ensemble''"]
    wf_init [where ?'a = nat]
  show ?thesis by blast
qed

text \<open>
  C9. \<open>get_activated_modules\<close> returns a set object with the contents of the
  activated set. The object is not the one the global names; the global, its set,
  the handle table and every object that existed before are unchanged; and whatever
  the caller then does to the returned object (\<open>f\<close>), the activated set and the
  handle table stay what they were.
\<close>

theorem get_activated_modules_snapshot:
  assumes "wf_state s" and "get_activated_modules s = (r, s')"
  shows "deref s' r = activated s
       \<and> r \<noteq> activated_modules s'
       \<and> activated_modules s' = activated_modules s
       \<and> activated s' = activated s
       \<and> accelerator s' = accelerator s
       \<and> (\<forall>a < length (heap s). deref s' a = deref s a)
       \<and> activated (set_mutate r f s') = activated s
       \<and> accelerator (set_mutate r f s') = accelerator s"
  using assms
  by (auto simp: get_activated_modules_def set_copy_def set_mutate_def wf_state_def
        activated_def deref_def nth_append)

theorem get_activated_modules_snapshot_witness:
  "wf_state \<lparr>heap = [{''sklearn.ensemble''}], activated_modules = 0,
             accelerator = [''sklearn.ensemble'' \<mapsto> (7::nat)]\<rparr>
   \<and> get_activated_modules
        \<lparr>heap = [{''sklearn.ensemble''}], activated_modules = 0,
         accelerator = [''sklearn.ensemble'' \<mapsto> (7::nat)]\<rparr>
      = (1, \<lparr>heap = [{''sklearn.ensemble''}, {''sklearn.ensemble''}], activated_modules = 0,
              accelerator = [''sklearn.ensemble'' \<mapsto> 7]\<rparr>)
   \<and> activated
        (set_mutate 1 (\<lambda>S. {})
           \<lparr>heap = [{''sklearn.ensemble''}, {''sklearn.ensemble''}], activated_modules = 0,
            accelerator = [''sklearn.ensemble'' \<mapsto> (7::nat)]\<rparr>)
      = {''sklearn.ensemble''}"
proof -
  let ?s = "\<lparr>heap = [{''sklearn.ensemble''}], activated_modules = 0,
             accelerator = [''sklearn.ensemble'' \<mapsto> (7::nat)]\<rparr>"
  let ?s' = "\<lparr>heap = [{''sklearn.ensemble''}, {''sklearn.ensemble''}], activated_modules = 0,
              accelerator = [''sklearn.ensemble'' \<mapsto> (7::nat)]\<rparr>"
  have w: "wf_state ?s" by (simp add: wf_state_def)
  have g: "get_activated_modules ?s = (1, ?s')"
    by (simp add: get_activated_modules_def set_copy_def deref_def)
  have a: "activated ?s = {''sklearn.ensemble''}" by (simp add: activated_def deref_def)
  from get_activated_modules_snapshot [OF w g, of "\<lambda>S. {}"] w g a show ?thesis by simp
qed

text \<open>
  C10. In every state reached from the initial one by calls of the module's functions,
  the activated set is the set of keys of the handle table.
\<close>

theorem activated_eq_handle_keys:
  "activated (run cs init_state) = dom (accelerator (run cs init_state))"
proof (rule run_dom [OF wf_init])
  show "activated (init_state :: 'a state) = dom (accelerator (init_state :: 'a state))"
    unfolding activated_init by (simp add: init_state_def)
qed

theorem activated_eq_handle_keys_witness:
  "activated (run [Activate cuml_not_installed ''sklearn.ensemble'',
                   Activate cuml_working ''sklearn.ensemble'', GetActivated] init_state)
     = {''sklearn.ensemble''}
   \<and> dom (accelerator (run [Activate cuml_not_installed ''sklearn.ensemble'',
                   Activate cuml_working ''sklearn.ensemble'', GetActivated] init_state))
     = {''sklearn.ensemble''}"
proof -
  have "activated (run [Activate cuml_not_installed ''sklearn.ensemble'',
                   Activate cuml_working ''sklearn.ensemble'', GetActivated] init_state)
     = {''sklearn.ensemble''}"
    unfolding run_sample by (simp add: activated_def deref_def)
  with activated_eq_handle_keys
    [of "[Activate cuml_not_installed ''sklearn.ensemble'',
          Activate cuml_working ''sklearn.ensemble'', GetActivated]"]
  show ?thesis by simp
qed

end
